theory Spec2Isabelle
  imports Main "HOL-Library.AList"
begin

section \<open>Players and the object store\<close>

text \<open>
  The module \<open>backend/game/__init__.py\<close> shares mutable \<open>Player\<close> objects between the
  registry of \<open>GameApp\<close>, the set of the \<open>WaitingRoom\<close> and the pair of a \<open>Game\<close>.
  Objects are therefore kept in a store: an address stands for the identity of a
  \<open>Player\<close> object and the heap maps every address to the current field values.
  Python's \<open>set\<close> of players hashes by identity, so membership is membership of the address.
\<close>

type_synonym addr = nat

record player =
  nick :: string
  id_p :: string
  in_game :: bool

type_synonym heap = "addr \<Rightarrow> player"

text \<open>
  Modelled from the spec: the class \<open>Player\<close> of \<open>backend/game/player.py\<close>, which the
  module imports. A player has a stable nickname, a connection id that changes on
  reconnect, and the flag \<open>in_game\<close>; a new player is not in a game.
\<close>

definition Player :: "string \<Rightarrow> string \<Rightarrow> player" where
  "Player n i = \<lparr>nick = n, id_p = i, in_game = False\<rparr>"

text \<open>
  Modelled from the spec: \<open>Player.reconnect(id)\<close>, which updates the connection id of
  the same logical player.
\<close>

definition reconnect :: "string \<Rightarrow> player \<Rightarrow> player" where
  "reconnect i p = p\<lparr>id_p := i\<rparr>"

text \<open>
  Modelled from the spec: \<open>Player.reset_after_game()\<close>, which resets the transient
  in-game state (\<open>inGame = false\<close>) so that the player is eligible for matchmaking again.
\<close>

definition reset_after_game :: "player \<Rightarrow> player" where
  "reset_after_game p = p\<lparr>in_game := False\<rparr>"

text \<open>
  The failures of the module are the exceptions of the Python runtime: \<open>ValueError\<close>
  from \<open>random.sample\<close> and \<open>KeyError\<close> from a dictionary lookup.
  \<open>InsufficientMembers\<close> is the condition the specification names for a draw from
  fewer than two members; no statement of the module raises it.
\<close>

datatype error = ValueError | KeyError | InsufficientMembers

text \<open>
  A store in which every address holds an anonymous player; the concrete stores of the
  examples below are updates of it.
\<close>

definition no_players :: heap where
  "no_players = (\<lambda>p. Player [] [])"

section \<open>The realtime channel and the outcome engine\<close>

text \<open>
  Modelled from the spec: the constants of \<open>api.route_constants\<close>, five distinct message
  names (section 6 of the specification).
\<close>

datatype event_name = GAME_STARTED | GAME_RESULT | SCORE | UNITS_READY | BATTLE_STARTED

text \<open>
  Everything the module does to the outside world is appended to a trace, oldest first:
  \<open>Emit e d r\<close> is the call \<open>sio.emit(e, data=d, room=r)\<close> (\<open>None\<close> when no room is
  given, that is a broadcast), and \<open>Start_simulation a b s\<close> is the call
  \<open>BattleSimulator(a, b).start_simulation(random_seed=s)\<close>. Calls of \<open>logging.info\<close> are
  not recorded. The handlers are coroutines; each is modelled as running to completion.
\<close>

datatype effect =
  Emit event_name "(string \<times> string) list" "string option"
| Start_simulation addr addr int

text \<open>
  The outcome engine \<open>BattleSimulator\<close> is an external collaborator: it is a parameter, a
  function of the two players and the seed that returns (result, message, logs).
\<close>

type_synonym 'r simulator = "player \<Rightarrow> player \<Rightarrow> int \<Rightarrow> 'r \<times> string \<times> string"

section \<open>WaitingRoom\<close>

text \<open>
  The Python \<open>set\<close> of players is a list without duplicates, in iteration order
  (\<open>random.sample\<close> reads the set as a sequence); \<open>set_add\<close> and \<open>set_discard\<close> are
  \<open>set.add\<close> and \<open>set.discard\<close>.
\<close>

record waiting_room =
  wr_players :: "addr list"
  capacity :: int

definition WaitingRoom :: "int \<Rightarrow> waiting_room" where
  "WaitingRoom c = \<lparr>wr_players = [], capacity = c\<rparr>"

definition set_add :: "'a \<Rightarrow> 'a list \<Rightarrow> 'a list" where
  "set_add x xs = (if x \<in> set xs then xs else xs @ [x])"

definition set_discard :: "'a \<Rightarrow> 'a list \<Rightarrow> 'a list" where
  "set_discard x xs = removeAll x xs"

definition is_full :: "waiting_room \<Rightarrow> bool" where
  "is_full r = (int (length (wr_players r)) = capacity r)"

definition join :: "addr \<Rightarrow> waiting_room \<Rightarrow> waiting_room" where
  "join p r =
     (if \<not> is_full r \<and> p \<notin> set (wr_players r)
      then r\<lparr>wr_players := set_add p (wr_players r)\<rparr>
      else r)"

fun join_all :: "addr list \<Rightarrow> waiting_room \<Rightarrow> waiting_room" where
  "join_all [] r = r"
| "join_all (p # ps) r = join_all ps (join p r)"

text \<open>
  \<open>random.sample(population, 2)\<close> of the Python standard library, for a set that is
  first turned into a sequence: it raises \<open>ValueError\<close> when the population has fewer
  than two elements; otherwise it copies the population into a pool, draws
  \<open>j1 = randbelow(n)\<close>, takes \<open>pool[j1]\<close>, moves the last element into the vacancy, draws
  \<open>j2 = randbelow(n - 1)\<close> and takes \<open>pool[j2]\<close>. The two raw random numbers are the
  argument \<open>rnd\<close>; \<open>randbelow(m)\<close> is the remainder modulo \<open>m\<close>.
\<close>

definition random_sample2 :: "nat \<times> nat \<Rightarrow> 'a list \<Rightarrow> error + 'a list" where
  "random_sample2 rnd population =
     (let n = length population in
      if n < 2 then Inl ValueError
      else
        let j1 = fst rnd mod n;
            pool = population[j1 := population ! (n - 1)];
            j2 = snd rnd mod (n - 1)
        in Inr [population ! j1, pool ! j2])"

fun draw_loop :: "addr list \<Rightarrow> waiting_room \<times> heap \<Rightarrow> waiting_room \<times> heap" where
  "draw_loop [] st = st"
| "draw_loop (p # ps) (r, h) =
     draw_loop ps
       (r\<lparr>wr_players := set_discard p (wr_players r)\<rparr>, h(p := (h p)\<lparr>in_game := True\<rparr>))"

definition draw_two_players_to_game ::
  "nat \<times> nat \<Rightarrow> waiting_room \<times> heap \<Rightarrow> error + (addr list \<times> waiting_room \<times> heap)" where
  "draw_two_players_to_game rnd st =
     (case random_sample2 rnd (wr_players (fst st)) of
        Inl e \<Rightarrow> Inl e
      | Inr players \<Rightarrow> Inr (players, draw_loop players st))"

section \<open>Game\<close>

text \<open>
  A Python \<open>dict\<close> is an association list with distinct keys in insertion order;
  \<open>AList.update\<close> is item assignment (an existing key keeps its position, a new key is
  appended) and \<open>map_of\<close> is lookup.
\<close>

type_synonym readiness = "(string \<times> (string \<times> bool) list) list"

record game =
  g_players :: "addr \<times> addr"
  is_finished :: bool
  players_quiz_and_units_ready :: readiness

type_synonym gstate = "game \<times> heap \<times> effect list"

definition players_of :: "game \<Rightarrow> addr list" where
  "players_of g = [fst (g_players g), snd (g_players g)]"

definition Game :: "heap \<Rightarrow> addr \<times> addr \<Rightarrow> game" where
  "Game h ps =
     \<lparr>g_players = ps,
      is_finished = False,
      players_quiz_and_units_ready =
        fold (\<lambda>p d. AList.update (id_p (h p)) [(''units'', False), (''quiz'', False)] d)
          [fst ps, snd ps] []\<rparr>"

definition send_game_results :: "string \<Rightarrow> string \<Rightarrow> gstate \<Rightarrow> gstate" where
  "send_game_results message logs st =
     (case st of (g, h, tr) \<Rightarrow>
        (g, h,
         fold (\<lambda>p t.
                 if in_game (h p)
                 then t @ [Emit GAME_RESULT [(''message'', message), (''logs'', logs)]
                             (Some (id_p (h p)))]
                 else t)
           (players_of g) tr))"

definition end_game_for_players :: "string \<Rightarrow> string \<Rightarrow> gstate \<Rightarrow> gstate" where
  "end_game_for_players message logs st =
     (case send_game_results message logs st of (g, h, tr) \<Rightarrow>
        (g, fold (\<lambda>p h'. h'(p := reset_after_game (h' p))) (players_of g) h, tr))"

definition battle :: "'r simulator \<Rightarrow> gstate \<Rightarrow> gstate" where
  "battle sim st =
     (case st of (g, h, tr) \<Rightarrow>
        let p0 = fst (g_players g);
            p1 = snd (g_players g);
            tr1 = tr @ [Emit BATTLE_STARTED
                          [(''message'',
                            ''Battle between '' @ nick (h p0) @ '' and '' @ nick (h p1)
                              @ '' started!'')]
                          None];
            tr2 = tr1 @ [Start_simulation p0 p1 17]
        in case sim (h p0) (h p1) 17 of (result, message, logs) \<Rightarrow>
             (case end_game_for_players message logs (g, h, tr2) of (g', h', tr') \<Rightarrow>
                (g'\<lparr>is_finished := True\<rparr>, h', tr')))"

definition all_players_connected :: "game \<Rightarrow> heap \<Rightarrow> bool" where
  "all_players_connected g h = list_all (\<lambda>p. in_game (h p)) (players_of g)"

definition set_on_game_started :: "gstate \<Rightarrow> gstate" where
  "set_on_game_started st =
     (case st of (g, h, tr) \<Rightarrow>
        if all_players_connected g h
        then (g, h,
              fold (\<lambda>p t. t @ [Emit GAME_STARTED [(''message'', ''game started'')]
                                  (Some (id_p (h p)))])
                (players_of g) tr)
        else send_game_results ''Player disconnected, walkover'' '''' st)"

definition all_ready :: "readiness \<Rightarrow> bool" where
  "all_ready rd = list_all (\<lambda>(k, dictionary). list_all (\<lambda>(w, is_ready). is_ready) dictionary) rd"

definition start_game_if_ready :: "'r simulator \<Rightarrow> gstate \<Rightarrow> gstate" where
  "start_game_if_ready sim st =
     (case st of (g, h, tr) \<Rightarrow>
        if all_ready (players_quiz_and_units_ready g) then battle sim st else st)"

definition save_what_is_ready ::
  "'r simulator \<Rightarrow> string \<Rightarrow> string \<Rightarrow> gstate \<Rightarrow> error + gstate" where
  "save_what_is_ready sim sid what_is_ready st =
     (case st of (g, h, tr) \<Rightarrow>
        let p0 = fst (g_players g); p1 = snd (g_players g) in
        if \<not> (id_p (h p0) = sid \<or> id_p (h p1) = sid) then Inr st
        else
          let player_id = (if id_p (h p0) = sid then id_p (h p0) else id_p (h p1)) in
          case map_of (players_quiz_and_units_ready g) player_id of
            None \<Rightarrow> Inl KeyError
          | Some d \<Rightarrow>
              Inr (start_game_if_ready sim
                     (g\<lparr>players_quiz_and_units_ready :=
                          AList.update player_id (AList.update what_is_ready True d)
                            (players_quiz_and_units_ready g)\<rparr>,
                      h, tr)))"

definition quiz_results_ready ::
  "'r simulator \<Rightarrow> string \<Rightarrow> string \<Rightarrow> gstate \<Rightarrow> error + gstate" where
  "quiz_results_ready sim sid data st = save_what_is_ready sim sid ''quiz'' st"

definition units_ready :: "'r simulator \<Rightarrow> string \<Rightarrow> gstate \<Rightarrow> error + gstate" where
  "units_ready sim sid st = save_what_is_ready sim sid ''units'' st"

text \<open>
  The constructor registers \<open>quiz_results_ready\<close> for \<open>SCORE\<close> and \<open>units_ready\<close> for
  \<open>UNITS_READY\<close>; a readiness signal is one of these two events with the connection id
  of its sender, and \<open>deliver\<close> is the dispatch to the registered handler.
\<close>

datatype signal = Score string string | Units_ready string

fun deliver :: "'r simulator \<Rightarrow> signal \<Rightarrow> gstate \<Rightarrow> error + gstate" where
  "deliver sim (Score sid data) st = quiz_results_ready sim sid data st"
| "deliver sim (Units_ready sid) st = units_ready sim sid st"

fun deliver_all :: "'r simulator \<Rightarrow> signal list \<Rightarrow> gstate \<Rightarrow> error + gstate" where
  "deliver_all sim [] st = Inr st"
| "deliver_all sim (s # ss) st =
     (case deliver sim s st of Inl e \<Rightarrow> Inl e | Inr st' \<Rightarrow> deliver_all sim ss st')"

text \<open>
  Every invocation of \<open>battle\<close> starts the simulation once, so the number of
  \<open>Start_simulation\<close> entries of a trace is the number of times \<open>battle\<close> has run.
\<close>

fun is_simulation :: "effect \<Rightarrow> bool" where
  "is_simulation (Start_simulation a b s) = True"
| "is_simulation (Emit e d r) = False"

definition battles :: "effect list \<Rightarrow> nat" where
  "battles tr = length (filter is_simulation tr)"

text \<open>
  The flag of player \<open>p\<close> for \<open>w\<close> (\<open>''units''\<close> or \<open>''quiz''\<close>) as the readiness map has it
  under the player's connection id; a missing entry counts as not ready.
\<close>

definition flag :: "readiness \<Rightarrow> string \<Rightarrow> string \<Rightarrow> bool" where
  "flag rd k w =
     (case map_of rd k of None \<Rightarrow> False
      | Some d \<Rightarrow> (case map_of d w of None \<Rightarrow> False | Some b \<Rightarrow> b))"


section \<open>GameApp\<close>

record game_app =
  app_players :: "addr list"
  waiting_room :: waiting_room
  current_games :: "game list"

definition GameApp :: game_app where
  "GameApp = \<lparr>app_players = [], waiting_room = WaitingRoom 2, current_games = []\<rparr>"

definition get_player_by_nick :: "game_app \<Rightarrow> heap \<Rightarrow> string \<Rightarrow> addr option" where
  "get_player_by_nick app h n = find (\<lambda>p. nick (h p) = n) (app_players app)"

text \<open>
  A newly constructed object has an identity no live object has. Every \<open>Player\<close> is
  created by \<open>add_player\<close> and stays in the registry, so the new address is one beyond
  those of the registry.
\<close>

definition new_addr :: "addr list \<Rightarrow> addr" where
  "new_addr ps = Suc (fold max ps 0)"

definition add_player ::
  "string \<Rightarrow> string \<Rightarrow> game_app \<times> heap \<Rightarrow> addr \<times> game_app \<times> heap" where
  "add_player n i st =
     (case st of (app, h) \<Rightarrow>
        case get_player_by_nick app h n of
          Some existing_player \<Rightarrow>
            (existing_player, app, h(existing_player := reconnect i (h existing_player)))
        | None \<Rightarrow>
            let new_player = new_addr (app_players app) in
            (new_player,
             app\<lparr>app_players := app_players app @ [new_player],
                 waiting_room := join new_player (waiting_room app)\<rparr>,
             h(new_player := Player n i)))"

section \<open>Notions used to state the properties\<close>

text \<open>
  The \<open>GAME_RESULT\<close> messages that go to the players of \<open>ps\<close> who are connected,
  each to the room of the player's connection id.
\<close>

definition result_messages :: "string \<Rightarrow> string \<Rightarrow> heap \<Rightarrow> addr list \<Rightarrow> effect list" where
  "result_messages message logs h ps =
     map (\<lambda>p. Emit GAME_RESULT [(''message'', message), (''logs'', logs)] (Some (id_p (h p))))
       (filter (\<lambda>p. in_game (h p)) ps)"

text \<open>The store after \<open>reset_after_game\<close> has been called on every player of \<open>ps\<close>.\<close>

definition reset_players :: "addr list \<Rightarrow> heap \<Rightarrow> heap" where
  "reset_players ps h = fold (\<lambda>p h'. h'(p := reset_after_game (h' p))) ps h"


text \<open>The connection id \<open>sid\<close> is that of one of the two players of the game.\<close>

definition addressed :: "game \<Rightarrow> heap \<Rightarrow> string \<Rightarrow> bool" where
  "addressed g h sid =
     (id_p (h (fst (g_players g))) = sid \<or> id_p (h (snd (g_players g))) = sid)"


text \<open>The trace after a sequence of signals, when no handler has failed.\<close>

definition trace_after :: "'r simulator \<Rightarrow> signal list \<Rightarrow> gstate \<Rightarrow> effect list option" where
  "trace_after sim sigs st =
     (case deliver_all sim sigs st of Inl e \<Rightarrow> None | Inr (g, h, tr) \<Rightarrow> Some tr)"

text \<open>
  The running example: ann is the player at address 0 with connection id \<open>''a''\<close>, bob
  the player at address 1 with connection id \<open>''b''\<close>, both connected, and an outcome
  engine that always returns the same result.
\<close>

definition two_players :: heap where
  "two_players = no_players
     (0 := \<lparr>nick = ''ann'', id_p = ''a'', in_game = True\<rparr>,
      1 := \<lparr>nick = ''bob'', id_p = ''b'', in_game = True\<rparr>)"

definition fixed_outcome :: "nat simulator" where
  "fixed_outcome p q seed = (0, ''ann wins'', ''round 1'')"

text \<open>The same two players after bob has dropped his connection.\<close>

definition bob_left :: heap where
  "bob_left = two_players(1 := Player ''bob'' ''b'')"

text \<open>A game of ann and bob in which only bob's \<open>''quiz''\<close> flag is still missing.\<close>

definition almost_ready :: game where
  "almost_ready =
     \<lparr>g_players = (0, 1), is_finished = False,
      players_quiz_and_units_ready =
        [(''a'', [(''units'', True), (''quiz'', True)]),
         (''b'', [(''units'', True), (''quiz'', False)])]\<rparr>"

text \<open>
  The operations of a \<open>Game\<close> after its construction, one constructor for each method
  that acts on the game, and the run of a sequence of them; a failing operation ends the
  run, as the exception would.
\<close>

datatype game_op =
  Quiz_results_ready string string
| Units_ready_op string
| Save_what_is_ready string string
| Start_game_if_ready
| Battle
| End_game_for_players string string
| Set_on_game_started
| Send_game_results string string

fun run_op :: "'r simulator \<Rightarrow> game_op \<Rightarrow> gstate \<Rightarrow> error + gstate" where
  "run_op sim (Quiz_results_ready sid data) st = quiz_results_ready sim sid data st"
| "run_op sim (Units_ready_op sid) st = units_ready sim sid st"
| "run_op sim (Save_what_is_ready sid w) st = save_what_is_ready sim sid w st"
| "run_op sim Start_game_if_ready st = Inr (start_game_if_ready sim st)"
| "run_op sim Battle st = Inr (battle sim st)"
| "run_op sim (End_game_for_players m l) st = Inr (end_game_for_players m l st)"
| "run_op sim Set_on_game_started st = Inr (set_on_game_started st)"
| "run_op sim (Send_game_results m l) st = Inr (send_game_results m l st)"

fun run_ops :: "'r simulator \<Rightarrow> game_op list \<Rightarrow> gstate \<Rightarrow> error + gstate" where
  "run_ops sim [] st = Inr st"
| "run_ops sim (x # xs) st =
     (case run_op sim x st of Inl e \<Rightarrow> Inl e | Inr st' \<Rightarrow> run_ops sim xs st')"

text \<open>
  Every entry of the readiness map \<open>rd\<close> is still in \<open>rd'\<close>, with every flag it had, and
  no flag that was true is false.
\<close>

definition never_reset :: "readiness \<Rightarrow> readiness \<Rightarrow> bool" where
  "never_reset rd rd' =
     (\<forall>k d. map_of rd k = Some d \<longrightarrow>
        (\<exists>d'. map_of rd' k = Some d' \<and>
           (\<forall>w b. map_of d w = Some b \<longrightarrow> (\<exists>b'. map_of d' w = Some b' \<and> (b \<longrightarrow> b')))))"

text \<open>
  The nicknames of the registry in order, and the registry entries of one nickname.
\<close>

definition nicks_of :: "game_app \<Rightarrow> heap \<Rightarrow> string list" where
  "nicks_of app h = map (\<lambda>p. nick (h p)) (app_players app)"

definition entries_for :: "game_app \<Rightarrow> heap \<Rightarrow> string \<Rightarrow> addr list" where
  "entries_for app h n = filter (\<lambda>p. nick (h p) = n) (app_players app)"

section \<open>WaitingRoom: capacity bound\<close>

lemma join_capacity: "capacity (join p r) = capacity r"
  by (simp add: join_def)

lemma join_keeps_bound:
  assumes "distinct (wr_players r)" and "int (length (wr_players r)) \<le> capacity r"
  shows "distinct (wr_players (join p r)) \<and> int (length (wr_players (join p r))) \<le> capacity r"
  using assms by (auto simp: join_def is_full_def set_add_def)

lemma join_all_capacity: "capacity (join_all ps r) = capacity r"
  by (induction ps arbitrary: r) (simp_all add: join_capacity)

lemma join_all_keeps_bound:
  assumes "distinct (wr_players r)" and "int (length (wr_players r)) \<le> capacity r"
  shows "distinct (wr_players (join_all ps r)) \<and>
         int (length (wr_players (join_all ps r))) \<le> capacity r"
  using assms
proof (induction ps arbitrary: r)
  case Nil
  then show ?case by simp
next
  case (Cons p ps)
  have "distinct (wr_players (join p r)) \<and>
        int (length (wr_players (join p r))) \<le> capacity (join p r)"
    using join_keeps_bound [OF Cons.prems] by (simp add: join_capacity)
  then show ?case using Cons.IH [of "join p r"] by (simp add: join_capacity)
qed

text \<open>
  The constructor gives a room with no members, which is within any non-negative
  capacity; the draw keeps the members free of duplicates.
\<close>

lemma WaitingRoom_within_capacity:
  assumes "0 \<le> c"
  shows "distinct (wr_players (WaitingRoom c)) \<and>
         int (length (wr_players (WaitingRoom c))) \<le> capacity (WaitingRoom c)"
  using assms by (simp add: WaitingRoom_def)

lemma draw_loop_distinct:
  "distinct (wr_players r) \<Longrightarrow> distinct (wr_players (fst (draw_loop ps (r, h))))"
  by (induction ps arbitrary: r h) (simp_all add: set_discard_def distinct_removeAll)

text \<open>
  Claim C6. Take a waiting room whose members are within its capacity (as in every room
  the constructor builds with a non-negative capacity, where there are no members) and any
  sequence \<open>ps\<close> of players passed to \<open>join\<close>. After each call, that is after the first
  \<open>k\<close> calls for every \<open>k\<close>, the number of members is at most the capacity and no
  player is a member twice.
\<close>

theorem join_members_bounded:
  assumes "distinct (wr_players r)" and "int (length (wr_players r)) \<le> capacity r"
  shows "int (length (wr_players (join_all (take k ps) r)))
           \<le> capacity (join_all (take k ps) r) \<and>
         distinct (wr_players (join_all (take k ps) r))"
  using join_all_keeps_bound [OF assms, of "take k ps"] by (simp add: join_all_capacity)

theorem join_members_bounded_witness:
  "distinct (wr_players (WaitingRoom 2)) \<and>
   int (length (wr_players (WaitingRoom 2))) \<le> capacity (WaitingRoom 2) \<and>
   wr_players (join_all (take 3 [5, 7, 5, 9]) (WaitingRoom 2)) = [5, 7] \<and>
   int (length (wr_players (join_all (take 4 [5, 7, 5, 9]) (WaitingRoom 2)))) \<le> 2"
  using join_members_bounded [of "WaitingRoom 2" 4 "[5, 7, 5, 9]"]
  by (simp add: WaitingRoom_def join_def is_full_def set_add_def)

section \<open>WaitingRoom: drawing a pair\<close>







section \<open>Game: what the operations do\<close>

lemma send_fold:
  "fold (\<lambda>p t. if in_game (h p)
                 then t @ [Emit GAME_RESULT [(''message'', m), (''logs'', l)] (Some (id_p (h p)))]
                 else t) ps tr
   = tr @ result_messages m l h ps"
  by (induction ps arbitrary: tr) (simp_all add: result_messages_def)

lemma send_game_results_eq:
  "send_game_results m l (g, h, tr) = (g, h, tr @ result_messages m l h (players_of g))"
  by (simp add: send_game_results_def send_fold)

lemma end_game_for_players_eq:
  "end_game_for_players m l (g, h, tr) =
     (g, reset_players (players_of g) h, tr @ result_messages m l h (players_of g))"
  by (simp add: end_game_for_players_def send_game_results_eq reset_players_def)

lemma battle_eq:
  assumes "sim (h (fst (g_players g))) (h (snd (g_players g))) 17 = (res, m, l)"
  shows "battle sim (g, h, tr) =
     (g\<lparr>is_finished := True\<rparr>, reset_players (players_of g) h,
      tr @ [Emit BATTLE_STARTED
              [(''message'', ''Battle between '' @ nick (h (fst (g_players g))) @ '' and ''
                  @ nick (h (snd (g_players g))) @ '' started!'')] None,
            Start_simulation (fst (g_players g)) (snd (g_players g)) 17]
         @ result_messages m l h (players_of g))"
  using assms by (simp add: battle_def Let_def end_game_for_players_eq)

lemma reset_players_fields:
  "id_p (reset_players ps h q) = id_p (h q)"
  "nick (reset_players ps h q) = nick (h q)"
  by (induction ps arbitrary: h; simp add: reset_players_def reset_after_game_def)+

lemma reset_players_in_game:
  "in_game (reset_players ps h q) = (q \<notin> set ps \<and> in_game (h q))"
  by (induction ps arbitrary: h) (auto simp: reset_players_def reset_after_game_def)

lemma battles_append: "battles (xs @ ys) = battles xs + battles ys"
  by (simp add: battles_def)

lemma battles_simps:
  "battles [] = 0"
  "battles (Emit e d r # tr) = battles tr"
  "battles (Start_simulation a b n # tr) = Suc (battles tr)"
  by (simp_all add: battles_def)

lemma battles_result_messages: "battles (result_messages m l h ps) = 0"
  by (simp add: battles_def result_messages_def filter_empty_conv)

lemma battle_facts:
  "\<exists>g' h' tr'. battle sim (g, h, tr) = (g', h', tr') \<and>
     players_quiz_and_units_ready g' = players_quiz_and_units_ready g \<and>
     g_players g' = g_players g \<and>
     (\<forall>q. id_p (h' q) = id_p (h q)) \<and>
     battles tr' = Suc (battles tr)"
proof -
  obtain res m l where s: "sim (h (fst (g_players g))) (h (snd (g_players g))) 17 = (res, m, l)"
    by (metis prod_cases3)
  show ?thesis
    unfolding battle_eq [of sim h g res m l tr, OF s]
    by (simp add: reset_players_fields battles_append battles_result_messages battles_simps)
qed

lemma walkover_eq:
  assumes "\<not> all_players_connected g h"
  shows "set_on_game_started (g, h, tr) =
           (g, h, tr @ result_messages ''Player disconnected, walkover'' '''' h (players_of g))"
  using assms by (simp add: set_on_game_started_def send_game_results_eq)

section \<open>Game: readiness signals\<close>












lemma save_unaddressed:
  assumes "\<not> addressed g h sid"
  shows "save_what_is_ready sim sid w (g, h, tr) = Inr (g, h, tr)"
  using assms by (simp add: save_what_is_ready_def addressed_def Let_def)

lemma save_addressed:
  assumes "addressed g h sid" and "map_of (players_quiz_and_units_ready g) sid = Some d"
  shows "save_what_is_ready sim sid w (g, h, tr) =
           Inr (start_game_if_ready sim
                  (g\<lparr>players_quiz_and_units_ready :=
                       AList.update sid (AList.update w True d)
                         (players_quiz_and_units_ready g)\<rparr>, h, tr))"
proof -
  have "(if id_p (h (fst (g_players g))) = sid then id_p (h (fst (g_players g)))
         else id_p (h (snd (g_players g)))) = sid"
    using assms(1) by (auto simp: addressed_def)
  then show ?thesis
    using assms by (auto simp: save_what_is_ready_def addressed_def Let_def)
qed





section \<open>Game: the walkover\<close>

text \<open>
  Claim C4. When \<open>set_on_game_started\<close> runs with a player who is not connected, what it
  adds to the trace is one \<open>GAME_RESULT\<close> message with the text
  \<open>Player disconnected, walkover\<close> and empty logs for each connected player, sent to the
  room of that player's connection id (so at most one message): no \<open>GAME_STARTED\<close> and
  no \<open>BATTLE_STARTED\<close> message is sent, the outcome engine is not started and the game
  is not marked finished.
\<close>

theorem walkover_messages:
  assumes "\<not> all_players_connected g h"
  shows "\<exists>g' h' new.
           set_on_game_started (g, h, tr) = (g', h', tr @ new) \<and>
           new = map (\<lambda>p. Emit GAME_RESULT
                            [(''message'', ''Player disconnected, walkover''), (''logs'', '''')]
                            (Some (id_p (h p))))
                   (filter (\<lambda>p. in_game (h p)) (players_of g)) \<and>
           length new \<le> 1 \<and>
           (\<forall>d r. Emit GAME_STARTED d r \<notin> set new) \<and>
           (\<forall>d r. Emit BATTLE_STARTED d r \<notin> set new) \<and>
           battles (tr @ new) = battles tr \<and>
           is_finished g' = is_finished g"
proof -
  have "length (filter (\<lambda>p. in_game (h p)) (players_of g)) \<le> 1"
    using assms by (simp add: all_players_connected_def players_of_def)
  then show ?thesis
    unfolding walkover_eq [OF assms]
    by (auto simp: result_messages_def battles_append
          battles_result_messages [unfolded result_messages_def])
qed

theorem walkover_messages_witness:
  "\<not> all_players_connected (Game two_players (0, 1)) bob_left \<and>
   snd (snd (set_on_game_started (Game two_players (0, 1), bob_left, []))) =
     [Emit GAME_RESULT [(''message'', ''Player disconnected, walkover''), (''logs'', '''')]
        (Some ''a'')]"
  using walkover_messages [of "Game two_players (0, 1)" bob_left "[]"]
  by (auto simp: all_players_connected_def players_of_def Game_def bob_left_def
        two_players_def no_players_def Player_def)

text \<open>
  Claim C10. In the walkover branch the call changes nothing but the trace, to which it
  adds \<open>GAME_RESULT\<close> messages only: the game is returned as it was (\<open>is_finished\<close> and
  the readiness map included) and so is the store (no player's \<open>in_game\<close> changes, as
  \<open>reset_after_game\<close> is not called).
\<close>

theorem walkover_frame:
  assumes "\<not> all_players_connected g h"
  shows "\<exists>g' h' new.
           set_on_game_started (g, h, tr) = (g', h', tr @ new) \<and>
           (\<forall>e \<in> set new. \<exists>d r. e = Emit GAME_RESULT d r) \<and>
           g' = g \<and> is_finished g' = is_finished g \<and>
           players_quiz_and_units_ready g' = players_quiz_and_units_ready g \<and>
           h' = h \<and> (\<forall>p. in_game (h' p) = in_game (h p))"
  unfolding walkover_eq [OF assms]
  by (auto simp: result_messages_def)

theorem walkover_frame_witness:
  "\<not> all_players_connected (Game two_players (0, 1)) bob_left \<and>
   fst (set_on_game_started (Game two_players (0, 1), bob_left, [])) = Game two_players (0, 1) \<and>
   fst (snd (set_on_game_started (Game two_players (0, 1), bob_left, []))) = bob_left \<and>
   \<not> is_finished (fst (set_on_game_started (Game two_players (0, 1), bob_left, []))) \<and>
   in_game (fst (snd (set_on_game_started (Game two_players (0, 1), bob_left, []))) 0) \<and>
   \<not> in_game (fst (snd (set_on_game_started (Game two_players (0, 1), bob_left, []))) 1)"
  using walkover_frame [of "Game two_players (0, 1)" bob_left "[]"]
  by (auto simp: all_players_connected_def players_of_def Game_def bob_left_def
        two_players_def no_players_def Player_def)

text \<open>
  On the path of \<open>start_games\<close> the walkover branch is not taken: the draw has just set
  \<open>in_game\<close> on both players, so the game built from the drawn pair sends
  \<open>GAME_STARTED\<close> to each of them.
\<close>

lemma drawn_pair_connected:
  assumes "draw_two_players_to_game rnd (r, h) = Inr ([a, b], r', h')"
  shows "all_players_connected (Game h' (a, b)) h'"
  using assms
  by (auto simp: draw_two_players_to_game_def all_players_connected_def players_of_def Game_def
        split: sum.splits)

lemma drawn_pair_game_started:
  assumes "draw_two_players_to_game rnd (r, h) = Inr ([a, b], r', h')"
  shows "set_on_game_started (Game h' (a, b), h', tr) =
           (Game h' (a, b), h',
            tr @ [Emit GAME_STARTED [(''message'', ''game started'')] (Some (id_p (h' a))),
                  Emit GAME_STARTED [(''message'', ''game started'')] (Some (id_p (h' b)))])"
  using drawn_pair_connected [OF assms]
  by (simp add: set_on_game_started_def players_of_def Game_def)

section \<open>Game: when the battle runs\<close>





text \<open>
  Claim C8 at the input where the code departs from it. After the four signals that
  complete readiness the battle has run and both results have been sent. Delivering bob's
  \<open>SCORE\<close> signal once more finds all flags true again, so \<open>battle\<close> runs a second time:
  \<open>BATTLE_STARTED\<close> is broadcast and the outcome engine is started again (no result is
  sent, as both players have left the game). Nothing in \<open>start_game_if_ready\<close> looks at
  \<open>is_finished\<close>, which the first battle has set.
\<close>

theorem repeated_signal_runs_battle_again:
  "trace_after fixed_outcome
     [Units_ready ''a'', Score ''a'' ''90'', Units_ready ''b'', Score ''b'' ''80'']
     (Game two_players (0, 1), two_players, [])
   = Some
      [Emit BATTLE_STARTED [(''message'', ''Battle between ann and bob started!'')] None,
       Start_simulation 0 1 17,
       Emit GAME_RESULT [(''message'', ''ann wins''), (''logs'', ''round 1'')] (Some ''a''),
       Emit GAME_RESULT [(''message'', ''ann wins''), (''logs'', ''round 1'')] (Some ''b'')] \<and>
   trace_after fixed_outcome
     [Units_ready ''a'', Score ''a'' ''90'', Units_ready ''b'', Score ''b'' ''80'',
      Score ''b'' ''80'']
     (Game two_players (0, 1), two_players, [])
   = Some
      [Emit BATTLE_STARTED [(''message'', ''Battle between ann and bob started!'')] None,
       Start_simulation 0 1 17,
       Emit GAME_RESULT [(''message'', ''ann wins''), (''logs'', ''round 1'')] (Some ''a''),
       Emit GAME_RESULT [(''message'', ''ann wins''), (''logs'', ''round 1'')] (Some ''b''),
       Emit BATTLE_STARTED [(''message'', ''Battle between ann and bob started!'')] None,
       Start_simulation 0 1 17]"
  by code_simp

section \<open>Game: the battle\<close>

text \<open>
  Claim C5. Take a signal from one of the players after which every flag of the readiness
  map is true, with both players connected. Then the handler adds exactly this to the
  trace, in this order: the broadcast of \<open>BATTLE_STARTED\<close>, one start of the outcome
  engine on the two players with seed 17, and \<open>GAME_RESULT\<close> with the engine's message
  and logs to the first and to the second player. Afterwards the game is finished and
  neither player is in a game.
\<close>

theorem battle_when_all_ready:
  assumes "addressed g h sid"
    and "map_of (players_quiz_and_units_ready g) sid = Some d"
    and "all_ready (AList.update sid (AList.update w True d) (players_quiz_and_units_ready g))"
    and "in_game (h (fst (g_players g)))" and "in_game (h (snd (g_players g)))"
    and "sim (h (fst (g_players g))) (h (snd (g_players g))) 17 = (res, message, logs)"
  shows "\<exists>g' h'.
     save_what_is_ready sim sid w (g, h, tr) =
       Inr (g', h',
            tr @ [Emit BATTLE_STARTED
                    [(''message'',
                      ''Battle between '' @ nick (h (fst (g_players g))) @ '' and ''
                        @ nick (h (snd (g_players g))) @ '' started!'')]
                    None,
                  Start_simulation (fst (g_players g)) (snd (g_players g)) 17,
                  Emit GAME_RESULT [(''message'', message), (''logs'', logs)]
                    (Some (id_p (h (fst (g_players g))))),
                  Emit GAME_RESULT [(''message'', message), (''logs'', logs)]
                    (Some (id_p (h (snd (g_players g)))))]) \<and>
     is_finished g' \<and>
     \<not> in_game (h' (fst (g_players g))) \<and> \<not> in_game (h' (snd (g_players g)))"
proof -
  let ?g1 = "g\<lparr>players_quiz_and_units_ready :=
               AList.update sid (AList.update w True d) (players_quiz_and_units_ready g)\<rparr>"
  have s: "sim (h (fst (g_players ?g1))) (h (snd (g_players ?g1))) 17 = (res, message, logs)"
    using assms(6) by simp
  have "save_what_is_ready sim sid w (g, h, tr) = Inr (battle sim (?g1, h, tr))"
    using save_addressed [OF assms(1,2), of sim w tr] assms(3)
    by (simp add: start_game_if_ready_def)
  then show ?thesis
    unfolding battle_eq [of sim h ?g1 res message logs tr, OF s]
    using assms(4,5)
    by (simp add: result_messages_def players_of_def reset_players_in_game)
qed

theorem battle_when_all_ready_witness:
  "addressed almost_ready two_players ''b'' \<and>
   map_of (players_quiz_and_units_ready almost_ready) ''b''
     = Some [(''units'', True), (''quiz'', False)] \<and>
   all_ready (AList.update ''b'' (AList.update ''quiz'' True [(''units'', True), (''quiz'', False)])
                (players_quiz_and_units_ready almost_ready)) \<and>
   in_game (two_players (fst (g_players almost_ready))) \<and>
   in_game (two_players (snd (g_players almost_ready))) \<and>
   fixed_outcome (two_players 0) (two_players 1) 17 = (0, ''ann wins'', ''round 1'') \<and>
   (\<exists>g' h'.
      save_what_is_ready fixed_outcome ''b'' ''quiz'' (almost_ready, two_players, []) =
        Inr (g', h',
             [Emit BATTLE_STARTED [(''message'', ''Battle between ann and bob started!'')] None,
              Start_simulation 0 1 17,
              Emit GAME_RESULT [(''message'', ''ann wins''), (''logs'', ''round 1'')] (Some ''a''),
              Emit GAME_RESULT [(''message'', ''ann wins''), (''logs'', ''round 1'')] (Some ''b'')]) \<and>
      is_finished g' \<and> \<not> in_game (h' 0) \<and> \<not> in_game (h' 1))"
  using battle_when_all_ready
          [of almost_ready two_players "''b''" "[(''units'', True), (''quiz'', False)]" "''quiz''"
             fixed_outcome 0 "''ann wins''" "''round 1''" "[]"]
  by (simp add: addressed_def all_ready_def almost_ready_def two_players_def no_players_def
        Player_def fixed_outcome_def)

section \<open>Game: the readiness map only grows\<close>

lemma never_reset_refl: "never_reset rd rd"
  by (simp add: never_reset_def)

lemma never_reset_trans:
  assumes "never_reset a b" and "never_reset b c"
  shows "never_reset a c"
  unfolding never_reset_def
proof (intro allI impI)
  fix k d assume "map_of a k = Some d"
  then obtain d' where d': "map_of b k = Some d'"
    and f: "\<forall>w x. map_of d w = Some x \<longrightarrow> (\<exists>x'. map_of d' w = Some x' \<and> (x \<longrightarrow> x'))"
    using assms(1) unfolding never_reset_def by blast
  obtain d'' where d'': "map_of c k = Some d''"
    and g: "\<forall>w x. map_of d' w = Some x \<longrightarrow> (\<exists>x'. map_of d'' w = Some x' \<and> (x \<longrightarrow> x'))"
    using assms(2) d' unfolding never_reset_def by blast
  have "\<forall>w x. map_of d w = Some x \<longrightarrow> (\<exists>x'. map_of d'' w = Some x' \<and> (x \<longrightarrow> x'))"
    using f g by meson
  then show "\<exists>d'. map_of c k = Some d' \<and>
       (\<forall>w x. map_of d w = Some x \<longrightarrow> (\<exists>x'. map_of d' w = Some x' \<and> (x \<longrightarrow> x')))"
    using d'' by blast
qed

lemma never_reset_update:
  assumes "map_of rd k = Some d"
  shows "never_reset rd (AList.update k (AList.update w True d) rd)"
  using assms by (auto simp: never_reset_def update_conv')

lemma start_game_if_ready_readiness:
  "players_quiz_and_units_ready (fst (start_game_if_ready sim (g, h, tr))) =
     players_quiz_and_units_ready g"
proof -
  obtain g' h' tr' where "battle sim (g, h, tr) = (g', h', tr')"
    and "players_quiz_and_units_ready g' = players_quiz_and_units_ready g"
    using battle_facts [of sim g h tr] by blast
  then show ?thesis by (simp add: start_game_if_ready_def)
qed

lemma save_what_is_ready_never_reset:
  assumes "save_what_is_ready sim sid w (g, h, tr) = Inr (g', h', tr')"
  shows "never_reset (players_quiz_and_units_ready g) (players_quiz_and_units_ready g')"
proof (cases "addressed g h sid")
  case False
  then show ?thesis using assms by (simp add: save_unaddressed never_reset_refl)
next
  case True
  show ?thesis
  proof (cases "map_of (players_quiz_and_units_ready g) sid")
    case None
    then show ?thesis
      using assms True by (auto simp: save_what_is_ready_def addressed_def Let_def split: if_splits)
  next
    case (Some d)
    let ?g1 = "g\<lparr>players_quiz_and_units_ready :=
                 AList.update sid (AList.update w True d) (players_quiz_and_units_ready g)\<rparr>"
    have "start_game_if_ready sim (?g1, h, tr) = (g', h', tr')"
      using assms save_addressed [OF True Some, of sim w tr] by simp
    then have "players_quiz_and_units_ready g' = players_quiz_and_units_ready ?g1"
      using start_game_if_ready_readiness [of sim ?g1 h tr] by simp
    then show ?thesis using never_reset_update [OF Some] by simp
  qed
qed

lemma run_op_never_reset:
  assumes "run_op sim x (g, h, tr) = Inr (g', h', tr')"
  shows "never_reset (players_quiz_and_units_ready g) (players_quiz_and_units_ready g')"
proof (cases x)
  case (Quiz_results_ready sid data)
  then show ?thesis
    using assms save_what_is_ready_never_reset by (simp add: quiz_results_ready_def)
next
  case (Units_ready_op sid)
  then show ?thesis
    using assms save_what_is_ready_never_reset by (simp add: units_ready_def)
next
  case (Save_what_is_ready sid w)
  then show ?thesis using assms save_what_is_ready_never_reset by simp
next
  case Start_game_if_ready
  then show ?thesis
    using assms start_game_if_ready_readiness [of sim g h tr] by (auto simp: never_reset_refl)
next
  case Battle
  then show ?thesis
    using assms battle_facts [of sim g h tr] by (auto simp: never_reset_refl)
next
  case (End_game_for_players m l)
  then show ?thesis
    using assms by (auto simp: end_game_for_players_eq never_reset_refl)
next
  case Set_on_game_started
  then show ?thesis
    using assms
    by (auto simp: set_on_game_started_def send_game_results_eq never_reset_refl
          split: if_splits)
next
  case (Send_game_results m l)
  then show ?thesis
    using assms by (auto simp: send_game_results_eq never_reset_refl)
qed

lemma run_ops_never_reset:
  assumes "run_ops sim xs (g, h, tr) = Inr (g', h', tr')"
  shows "never_reset (players_quiz_and_units_ready g) (players_quiz_and_units_ready g')"
  using assms
proof (induction xs arbitrary: g h tr)
  case Nil
  then show ?case by (simp add: never_reset_refl)
next
  case (Cons x xs)
  then obtain g1 h1 tr1 where s: "run_op sim x (g, h, tr) = Inr (g1, h1, tr1)"
    and r: "run_ops sim xs (g1, h1, tr1) = Inr (g', h', tr')"
    by (auto split: sum.splits)
  show ?case
    using never_reset_trans [OF run_op_never_reset [OF s] Cons.IH [OF r]] .
qed

lemma Game_readiness:
  "players_quiz_and_units_ready (Game h ps) =
     (if id_p (h (fst ps)) = id_p (h (snd ps))
      then [(id_p (h (fst ps)), [(''units'', False), (''quiz'', False)])]
      else [(id_p (h (fst ps)), [(''units'', False), (''quiz'', False)]),
            (id_p (h (snd ps)), [(''units'', False), (''quiz'', False)])])"
  by (simp add: Game_def)

text \<open>
  Claim C9. The constructor gives the readiness map one entry for each distinct
  connection id of the two players, each entry with \<open>''units''\<close> and \<open>''quiz''\<close> false.
  Whatever operations of the game run afterwards, in any order and on any game, an entry
  that was there is still there, a flag that was there is still there, and a flag that
  was true is still true.
\<close>

theorem readiness_flags_monotonic:
  "distinct (map fst (players_quiz_and_units_ready (Game h ps))) \<and>
   set (map fst (players_quiz_and_units_ready (Game h ps)))
     = {id_p (h (fst ps)), id_p (h (snd ps))} \<and>
   (\<forall>e \<in> set (players_quiz_and_units_ready (Game h ps)).
      snd e = [(''units'', False), (''quiz'', False)]) \<and>
   (run_ops sim xs (g, h0, tr) = Inr (g', h', tr') \<and>
    map_of (players_quiz_and_units_ready g) k = Some d \<and> map_of d w = Some b
    \<longrightarrow> (\<exists>d' b'. map_of (players_quiz_and_units_ready g') k = Some d' \<and>
                 map_of d' w = Some b' \<and> (b \<longrightarrow> b')))"
proof -
  have "\<exists>d' b'. map_of (players_quiz_and_units_ready g') k = Some d' \<and>
                 map_of d' w = Some b' \<and> (b \<longrightarrow> b')"
    if "run_ops sim xs (g, h0, tr) = Inr (g', h', tr')"
      and "map_of (players_quiz_and_units_ready g) k = Some d" and "map_of d w = Some b"
    using run_ops_never_reset [OF that(1)] that(2,3) unfolding never_reset_def by blast
  then show ?thesis by (auto simp: Game_readiness)
qed

theorem readiness_flags_monotonic_witness:
  "map_of (players_quiz_and_units_ready almost_ready) ''b''
     = Some [(''units'', True), (''quiz'', False)] \<and>
   map_of [(''units'', True), (''quiz'', False)] ''units'' = Some True \<and>
   (\<exists>g' h' tr'.
      run_ops fixed_outcome [Units_ready_op ''a'', Battle, Set_on_game_started]
        (almost_ready, two_players, []) = Inr (g', h', tr') \<and>
      flag (players_quiz_and_units_ready g') ''b'' ''units'')"
proof -
  let ?run = "run_ops fixed_outcome [Units_ready_op ''a'', Battle, Set_on_game_started]
                (almost_ready, two_players, [])"
  have "case ?run of Inl e \<Rightarrow> False | Inr st \<Rightarrow> True"
    by code_simp
  then obtain g' h' tr' where run: "?run = Inr (g', h', tr')"
    by (cases ?run) auto
  have k: "map_of (players_quiz_and_units_ready almost_ready) ''b''
             = Some [(''units'', True), (''quiz'', False)]"
    by (simp add: almost_ready_def)
  have w: "map_of [(''units'', True), (''quiz'', False)] ''units'' = Some True"
    by simp
  have "\<exists>d' b'. map_of (players_quiz_and_units_ready g') ''b'' = Some d' \<and>
                 map_of d' ''units'' = Some b' \<and> (True \<longrightarrow> b')"
    using readiness_flags_monotonic
            [of two_players "(0, 1)" fixed_outcome
               "[Units_ready_op ''a'', Battle, Set_on_game_started]" almost_ready two_players
               "[]" g' h' tr' "''b''" "[(''units'', True), (''quiz'', False)]" "''units''" True]
          run k w
    by blast
  then have "flag (players_quiz_and_units_ready g') ''b'' ''units''"
    by (auto simp: flag_def)
  then show ?thesis using run k w by blast
qed

section \<open>Game: a repeated signal while readiness is incomplete\<close>

text \<open>
  As long as some flag is still false after a signal, delivering the same signal again
  changes nothing: the flag is set to the value it has and no battle starts.
\<close>

lemma start_game_if_ready_not_ready:
  assumes "\<not> all_ready (players_quiz_and_units_ready g)"
  shows "start_game_if_ready sim (g, h, tr) = (g, h, tr)"
  using assms by (simp add: start_game_if_ready_def)

lemma repeated_signal_noop_until_ready:
  assumes "save_what_is_ready sim sid w (g, h, tr) = Inr (g1, h1, tr1)"
    and "\<not> all_ready (players_quiz_and_units_ready g1)"
  shows "save_what_is_ready sim sid w (g1, h1, tr1) = Inr (g1, h1, tr1)"
proof (cases "addressed g h sid")
  case False
  then show ?thesis using assms(1) by (simp add: save_unaddressed)
next
  case True
  show ?thesis
  proof (cases "map_of (players_quiz_and_units_ready g) sid")
    case None
    then show ?thesis
      using assms(1) True
      by (auto simp: save_what_is_ready_def addressed_def Let_def split: if_splits)
  next
    case (Some d)
    let ?rd = "AList.update sid (AList.update w True d) (players_quiz_and_units_ready g)"
    let ?g1 = "g\<lparr>players_quiz_and_units_ready := ?rd\<rparr>"
    have s: "start_game_if_ready sim (?g1, h, tr) = (g1, h1, tr1)"
      using assms(1) save_addressed [OF True Some, of sim w tr] by simp
    have "players_quiz_and_units_ready g1 = ?rd"
      using start_game_if_ready_readiness [of sim ?g1 h tr] s by simp
    then have nr: "\<not> all_ready ?rd" using assms(2) by simp
    then have eq: "g1 = ?g1" "h1 = h" "tr1 = tr"
      using s by (simp_all add: start_game_if_ready_def)
    have a1: "addressed ?g1 h sid" using True by (simp add: addressed_def)
    have l1: "map_of (players_quiz_and_units_ready ?g1) sid = Some (AList.update w True d)"
      by (simp add: update_conv')
    have "save_what_is_ready sim sid w (?g1, h, tr) =
            Inr (start_game_if_ready sim (?g1, h, tr))"
      using save_addressed [OF a1 l1, of sim w tr] by simp
    then show ?thesis
      using nr unfolding eq by (simp add: start_game_if_ready_def)
  qed
qed

section \<open>GameApp: registering and reconnecting\<close>

lemma fold_max_ge: "a \<le> fold max ps (a::nat)"
  by (induction ps arbitrary: a) (auto intro: le_trans [OF max.cobounded2])

lemma fold_max_mem: "x \<in> set ps \<Longrightarrow> x \<le> fold max ps (a::nat)"
proof (induction ps arbitrary: a)
  case Nil
  then show ?case by simp
next
  case (Cons p ps)
  show ?case
  proof (cases "x = p")
    case True
    have "p \<le> max p a" by simp
    also have "\<dots> \<le> fold max ps (max p a)" by (rule fold_max_ge)
    finally show ?thesis using True by simp
  next
    case False
    then show ?thesis using Cons by simp
  qed
qed

lemma new_addr_fresh: "new_addr ps \<notin> set ps"
  using fold_max_mem [of "new_addr ps" ps 0] by (auto simp: new_addr_def)

lemma unique_entry:
  assumes "distinct (map f xs)" and "a \<in> set xs"
  shows "filter (\<lambda>p. f p = f a) xs = [a]"
  using assms
proof (induction xs)
  case Nil
  then show ?case by simp
next
  case (Cons x xs)
  show ?case
  proof (cases "x = a")
    case True
    have "f a \<notin> f ` set xs" using Cons.prems(1) True by simp
    then have "\<forall>p \<in> set xs. f p \<noteq> f a" by (metis image_eqI)
    then have "filter (\<lambda>p. f p = f a) xs = []" by (simp add: filter_empty_conv)
    then show ?thesis using True by simp
  next
    case False
    then have a: "a \<in> set xs" using Cons.prems(2) by simp
    have "f x \<notin> f ` set xs" using Cons.prems(1) by simp
    then have "f x \<noteq> f a" using a by (metis image_eqI)
    then show ?thesis using Cons a by simp
  qed
qed

lemma find_SomeD: "find P xs = Some a \<Longrightarrow> P a \<and> a \<in> set xs"
  by (induction xs) (auto split: if_splits)

lemma find_append:
  "find P (xs @ ys) = (case find P xs of None \<Rightarrow> find P ys | Some x \<Rightarrow> Some x)"
  by (induction xs) auto

lemma add_player_existing:
  assumes "get_player_by_nick app h n = Some a"
  shows "add_player n i (app, h) = (a, app, h(a := reconnect i (h a)))"
  using assms by (simp add: add_player_def)

lemma get_player_by_nick_SomeD:
  assumes "get_player_by_nick app h n = Some a"
  shows "nick (h a) = n" and "a \<in> set (app_players app)"
  using find_SomeD [of "\<lambda>p. nick (h p) = n" "app_players app" a] assms
  by (simp_all add: get_player_by_nick_def)

lemma same_nick_update:
  assumes "nick q = nick (h a)"
  shows "nicks_of app (h(a := q)) = nicks_of app h"
    and "entries_for app (h(a := q)) n = entries_for app h n"
    and "get_player_by_nick app (h(a := q)) n = get_player_by_nick app h n"
  using assms
  by (auto simp: nicks_of_def entries_for_def get_player_by_nick_def
        intro!: filter_cong find_cong)

lemma nick_reconnect: "nick (reconnect i p) = nick p"
  by (simp add: reconnect_def)

lemma add_player_new:
  assumes "get_player_by_nick app h n = None"
  shows "\<exists>app' h'. add_player n i (app, h) = (new_addr (app_players app), app', h') \<and>
           get_player_by_nick app' h' n = Some (new_addr (app_players app)) \<and>
           nicks_of app' h' = nicks_of app h @ [n] \<and>
           entries_for app' h' n = [new_addr (app_players app)] \<and>
           n \<notin> set (nicks_of app h) \<and>
           h' (new_addr (app_players app)) = Player n i"
proof -
  let ?a = "new_addr (app_players app)"
  let ?h = "h(?a := Player n i)"
  let ?app = "app\<lparr>app_players := app_players app @ [?a],
                  waiting_room := join ?a (waiting_room app)\<rparr>"
  have none: "\<forall>p \<in> set (app_players app). nick (h p) \<noteq> n"
    using assms by (auto simp: get_player_by_nick_def find_None_iff)
  have same: "\<forall>p \<in> set (app_players app). ?h p = h p"
    using new_addr_fresh [of "app_players app"] by auto
  have n2: "\<forall>p \<in> set (app_players app). nick (?h p) \<noteq> n"
    using none same by simp
  have "find (\<lambda>p. nick (?h p) = n) (app_players app) = None"
    using n2 by (simp add: find_None_iff)
  then have f: "find (\<lambda>p. nick (?h p) = n) (app_players app @ [?a]) = Some ?a"
    by (simp add: find_append Player_def)
  have m: "map (\<lambda>p. nick (?h p)) (app_players app) = map (\<lambda>p. nick (h p)) (app_players app)"
    using same by (intro map_cong) auto
  have e: "filter (\<lambda>p. nick (?h p) = n) (app_players app) = []"
    using n2 by (simp add: filter_empty_conv)
  have 1: "add_player n i (app, h) = (?a, ?app, ?h)"
    using assms by (simp add: add_player_def Let_def)
  have 2: "get_player_by_nick ?app ?h n = Some ?a"
    using f by (simp add: get_player_by_nick_def)
  have 3: "nicks_of ?app ?h = nicks_of app h @ [n]"
    using m by (simp add: nicks_of_def Player_def)
  have 4: "entries_for ?app ?h n = [?a]"
    using e by (simp add: entries_for_def Player_def)
  have 5: "n \<notin> set (nicks_of app h)"
    using none by (auto simp: nicks_of_def)
  have 6: "?h ?a = Player n i" by simp
  show ?thesis using 1 2 3 4 5 6 by blast
qed

text \<open>
  Unique nicknames are an invariant of the registry: the empty registry has it and
  \<open>add_player\<close> keeps it.
\<close>

lemma add_player_unique_nicks:
  assumes "distinct (nicks_of app h)" and "add_player n i (app, h) = (a, app', h')"
  shows "distinct (nicks_of app' h')"
proof (cases "get_player_by_nick app h n")
  case (Some p)
  have "nicks_of app (h(p := reconnect i (h p))) = nicks_of app h"
    by (rule same_nick_update) (simp add: nick_reconnect)
  moreover have "(a, app', h') = (p, app, h(p := reconnect i (h p)))"
    using assms(2) unfolding add_player_existing [OF Some, of i] by (rule sym)
  then have "app' = app" "h' = h(p := reconnect i (h p))"
    by blast+
  ultimately show ?thesis using assms(1) by metis
next
  case None
  then show ?thesis
    using assms add_player_new [OF None, of i] by auto
qed

lemma GameApp_unique_nicks: "distinct (nicks_of GameApp h)"
  by (simp add: nicks_of_def GameApp_def)

text \<open>
  Claim C7. In a registry whose nicknames are unique (as in the empty registry, and kept so
  by \<open>add_player\<close>), two calls of \<open>add_player\<close> with the same nickname return the same
  player object; after the second call this player has the nickname and the connection
  id of the second call, it is the only registry entry with that nickname, and the
  nicknames are still unique.
\<close>

theorem add_player_twice_same_player:
  assumes "distinct (nicks_of app h)"
  shows "\<exists>a app1 h1 app2 h2.
           add_player n i1 (app, h) = (a, app1, h1) \<and>
           add_player n i2 (app1, h1) = (a, app2, h2) \<and>
           nick (h2 a) = n \<and> id_p (h2 a) = i2 \<and>
           entries_for app2 h2 n = [a] \<and>
           distinct (nicks_of app2 h2)"
proof (cases "get_player_by_nick app h n")
  case (Some a)
  define h1 where "h1 = h(a := reconnect i1 (h a))"
  define h2 where "h2 = h1(a := reconnect i2 (h1 a))"
  have 1: "add_player n i1 (app, h) = (a, app, h1)"
    unfolding h1_def using Some by (rule add_player_existing)
  have nk: "nick (h a) = n" and mem: "a \<in> set (app_players app)"
    using get_player_by_nick_SomeD [OF Some] by auto
  have k1: "nicks_of app h1 = nicks_of app h" "entries_for app h1 n = entries_for app h n"
    "get_player_by_nick app h1 n = get_player_by_nick app h n"
    unfolding h1_def by (rule same_nick_update; simp add: nick_reconnect)+
  have k2: "nicks_of app h2 = nicks_of app h1" "entries_for app h2 n = entries_for app h1 n"
    unfolding h2_def by (rule same_nick_update; simp add: nick_reconnect)+
  have 2: "add_player n i2 (app, h1) = (a, app, h2)"
    unfolding h2_def using Some k1(3) by (intro add_player_existing) simp
  have "entries_for app h n = [a]"
    using unique_entry [of "\<lambda>p. nick (h p)" "app_players app" a] assms mem nk
    by (simp add: entries_for_def nicks_of_def)
  then have e: "entries_for app h2 n = [a]"
    using k1 k2 by simp
  have d: "distinct (nicks_of app h2)"
    using assms k1 k2 by simp
  have "nick (h2 a) = n" "id_p (h2 a) = i2"
    using nk by (simp_all add: h2_def h1_def reconnect_def)
  then show ?thesis using 1 2 e d by blast
next
  case None
  let ?a = "new_addr (app_players app)"
  obtain app1 h1 where 1: "add_player n i1 (app, h) = (?a, app1, h1)"
    and g: "get_player_by_nick app1 h1 n = Some ?a"
    and nk: "nicks_of app1 h1 = nicks_of app h @ [n]"
    and en: "entries_for app1 h1 n = [?a]"
    and fresh: "n \<notin> set (nicks_of app h)"
    and pl: "h1 ?a = Player n i1"
    using add_player_new [OF None, of i1] by blast
  define h2 where "h2 = h1(?a := reconnect i2 (h1 ?a))"
  have 2: "add_player n i2 (app1, h1) = (?a, app1, h2)"
    unfolding h2_def using g by (rule add_player_existing)
  have k2: "nicks_of app1 h2 = nicks_of app1 h1" "entries_for app1 h2 n = entries_for app1 h1 n"
    unfolding h2_def by (rule same_nick_update; simp add: nick_reconnect)+
  have e: "entries_for app1 h2 n = [?a]"
    using en k2 by simp
  have d: "distinct (nicks_of app1 h2)"
    using assms nk fresh k2 by simp
  have "nick (h2 ?a) = n" "id_p (h2 ?a) = i2"
    using pl by (simp_all add: h2_def reconnect_def Player_def)
  then show ?thesis using 1 2 e d by blast
qed

theorem add_player_twice_same_player_witness:
  "distinct (nicks_of GameApp no_players) \<and>
   (\<exists>a app1 h1 app2 h2.
      add_player ''ann'' ''sid-1'' (GameApp, no_players) = (a, app1, h1) \<and>
      add_player ''ann'' ''sid-2'' (app1, h1) = (a, app2, h2) \<and>
      nick (h2 a) = ''ann'' \<and> id_p (h2 a) = ''sid-2'' \<and>
      entries_for app2 h2 ''ann'' = [a])"
  using add_player_twice_same_player [of GameApp no_players "''ann''" "''sid-1''" "''sid-2''"]
  by (simp add: nicks_of_def GameApp_def) blast

end
